theory Spec2Isabelle
  imports Complex_Main "HOL-Library.Log_Nat"
begin

section \<open>Image Compressor: the session, its handlers and the byte formatter\<close>

text \<open>
  A shallow embedding of \<^verbatim>\<open>src/index.tsx\<close>. The React component \<^verbatim>\<open>App\<close> keeps its
  state in nine \<^verbatim>\<open>useState\<close> cells; they are the fields of the record \<open>session\<close>.
  What the handlers do to the browser (object URLs created and revoked, calls of the
  external \<^verbatim>\<open>imageCompression\<close> routine, downloads) is recorded in the extension
  \<open>world\<close>. JavaScript numbers are taken as real numbers: a decimal literal denotes its
  decimal value, and \<^verbatim>\<open>Math.log\<close>, \<^verbatim>\<open>Math.pow\<close> and division are exact.
\<close>

subsection \<open>Data\<close>

text \<open>A browser \<^verbatim>\<open>File\<close>/\<^verbatim>\<open>Blob\<close>: the three attributes the component reads.\<close>

record jsfile =
  file_name :: string
  file_type :: string
  file_size :: nat

text \<open>
  The \<^verbatim>\<open>useState\<close> cells of \<^verbatim>\<open>App\<close>, with the source's names. \<^verbatim>\<open>null\<close> is \<open>None\<close>;
  an absent preview URL is the empty string, as in the source.
\<close>

record session =
  originalFile :: "jsfile option"
  compressedFile :: "jsfile option"
  originalImageUrl :: string
  compressedImageUrl :: string
  compressionLevel :: string
  customQuality :: int
  isCompressing :: bool
  error :: string
  appState :: string

text \<open>The options object handed to \<^verbatim>\<open>imageCompression\<close> (the progress callback only logs).\<close>

record options =
  maxSizeMB :: real
  initialQuality :: real

record call_options = options +
  useWebWorker :: bool

text \<open>
  The environment of the component:
  \<^item> \<open>created\<close>: every object URL handed out by \<^verbatim>\<open>URL.createObjectURL\<close>, with its blob,
    in order of creation;
  \<^item> \<open>revoked\<close>: every argument of \<^verbatim>\<open>URL.revokeObjectURL\<close>, in order;
  \<^item> \<open>calls\<close>: every call of \<^verbatim>\<open>imageCompression\<close>, with its arguments;
  \<^item> \<open>inflight\<close>: the number of those calls whose promise is not settled yet (each one
    has the rest of \<^verbatim>\<open>handleCompress\<close> waiting on it);
  \<^item> \<open>downloads\<close>: the links clicked by \<^verbatim>\<open>handleDownload\<close>, as (href, download name).
\<close>

record world = session +
  created :: "(string \<times> jsfile) list"
  revoked :: "string list"
  calls :: "(jsfile \<times> call_options) list"
  inflight :: nat
  downloads :: "(string \<times> string) list"

subsection \<open>Decimal numerals\<close>

definition digit_char :: "nat \<Rightarrow> char" where
  "digit_char d = ''0123456789'' ! d"

fun string_of_nat :: "nat \<Rightarrow> string" where
  "string_of_nat n =
     (if n < 10 then [digit_char n]
      else string_of_nat (n div 10) @ [digit_char (n mod 10)])"

declare string_of_nat.simps [simp del]

subsection \<open>Object URLs\<close>

text \<open>
  \<^verbatim>\<open>URL.createObjectURL(blob)\<close> returns a new, non-empty URL string each time it is
  called; the model numbers them in order of creation.
\<close>

definition fresh_url :: "('a world_scheme) \<Rightarrow> string" where
  "fresh_url w = ''blob:'' @ string_of_nat (length (created w))"

definition createObjectURL :: "jsfile \<Rightarrow> 'a world_scheme \<Rightarrow> string \<times> 'a world_scheme" where
  "createObjectURL blob w = (fresh_url w, w\<lparr>created := created w @ [(fresh_url w, blob)]\<rparr>)"

definition revokeObjectURL :: "string \<Rightarrow> 'a world_scheme \<Rightarrow> 'a world_scheme" where
  "revokeObjectURL url w = w\<lparr>revoked := revoked w @ [url]\<rparr>"

subsection \<open>The handlers of \<^verbatim>\<open>App\<close>\<close>

definition validation_message :: string where
  "validation_message = ''Please upload a valid JPG, PNG, or WebP image.''"

definition failure_message :: string where
  "failure_message =
     ''Failed to compress image. It might be too small or in an unsupported format.''"

definition accepted_types :: "string list" where
  "accepted_types = [''image/jpeg'', ''image/png'', ''image/webp'']"

text \<open>
  \<^verbatim>\<open>handleFileChange\<close>: the argument is \<^verbatim>\<open>event.target.files[0]\<close>, \<open>None\<close> when the
  selection is empty (\<^verbatim>\<open>undefined\<close>).
\<close>

definition handleFileChange :: "jsfile option \<Rightarrow> world \<Rightarrow> world" where
  "handleFileChange selected w =
     (case selected of
        None \<Rightarrow> w\<lparr>error := validation_message\<rparr>
      | Some f \<Rightarrow>
          if file_type f \<in> set accepted_types
          then (let (url, w1) = createObjectURL f w
                in w1\<lparr>originalFile := Some f, originalImageUrl := url,
                      error := '''', appState := ''compressing''\<rparr>)
          else w\<lparr>error := validation_message\<rparr>)"

text \<open>\<^verbatim>\<open>getCompressionOptions\<close>: a \<^verbatim>\<open>switch\<close> on the string \<^verbatim>\<open>compressionLevel\<close>.\<close>

definition getCompressionOptions :: "string \<Rightarrow> int \<Rightarrow> options" where
  "getCompressionOptions level quality =
     (if level = ''Low'' then \<lparr>maxSizeMB = 1, initialQuality = 0.8\<rparr>
      else if level = ''High'' then \<lparr>maxSizeMB = 0.1, initialQuality = 0.4\<rparr>
      else if level = ''Custom''
        then \<lparr>maxSizeMB = 2, initialQuality = real_of_int quality / 100\<rparr>
      else \<lparr>maxSizeMB = 0.5, initialQuality = 0.6\<rparr>)"

text \<open>
  \<^verbatim>\<open>handleCompress\<close> is an \<^verbatim>\<open>async\<close> function. Up to its \<^verbatim>\<open>await\<close> it runs with the
  click: the guard on \<^verbatim>\<open>originalFile\<close>, two state updates and the call of
  \<^verbatim>\<open>imageCompression\<close>. The rest runs when the promise settles: the \<^verbatim>\<open>try\<close> body if it
  resolves (with the compressed blob), the \<^verbatim>\<open>catch\<close> body if it rejects, and the
  \<^verbatim>\<open>finally\<close> block after either.
\<close>

definition handleCompress :: "world \<Rightarrow> world" where
  "handleCompress w =
     (case originalFile w of
        None \<Rightarrow> w
      | Some f \<Rightarrow>
          (let opts = getCompressionOptions (compressionLevel w) (customQuality w)
           in w\<lparr>isCompressing := True, error := '''',
                 calls := calls w @
                   [(f, \<lparr>maxSizeMB = maxSizeMB opts, initialQuality = initialQuality opts,
                         useWebWorker = True\<rparr>)],
                 inflight := Suc (inflight w)\<rparr>))"

definition handleCompress_resolved :: "jsfile \<Rightarrow> world \<Rightarrow> world" where
  "handleCompress_resolved compressed w =
     (let (url, w1) = createObjectURL compressed w
      in w1\<lparr>compressedFile := Some compressed, compressedImageUrl := url,
            appState := ''done'', isCompressing := False, inflight := inflight w - 1\<rparr>)"

definition handleCompress_rejected :: "world \<Rightarrow> world" where
  "handleCompress_rejected w =
     w\<lparr>error := failure_message, appState := ''upload'',
       isCompressing := False, inflight := inflight w - 1\<rparr>"

text \<open>
  \<^verbatim>\<open>handleDownload\<close> reads \<^verbatim>\<open>originalFile.name\<close>; on \<^verbatim>\<open>null\<close> that is a TypeError and
  nothing is downloaded.
\<close>

definition handleDownload :: "world \<Rightarrow> world" where
  "handleDownload w =
     (case compressedFile w of
        None \<Rightarrow> w
      | Some c \<Rightarrow>
          (case originalFile w of
             None \<Rightarrow> w
           | Some f \<Rightarrow>
               w\<lparr>downloads := downloads w @
                   [(compressedImageUrl w, ''compressed-'' @ file_name f)]\<rparr>))"

text \<open>
  \<^verbatim>\<open>handleReset\<close> also empties the value of the file input when the input is mounted;
  that is a property of the page, not of the session, and is left out.
\<close>

definition handleReset :: "world \<Rightarrow> world" where
  "handleReset w =
     (let w1 = revokeObjectURL (originalImageUrl w) w;
          w2 = revokeObjectURL (compressedImageUrl w) w1
      in w2\<lparr>originalFile := None, compressedFile := None,
            originalImageUrl := '''', compressedImageUrl := '''',
            compressionLevel := ''Medium'', customQuality := 70,
            error := '''', appState := ''upload''\<rparr>)"

subsection \<open>The rendered view and the events it accepts\<close>

text \<open>
  \<^verbatim>\<open>App\<close> renders one of three views, chosen by \<^verbatim>\<open>appState\<close>. A view is modelled by
  the controls it puts on the page. The compress button carries its \<^verbatim>\<open>disabled\<close>
  attribute, which the source binds to \<^verbatim>\<open>isCompressing\<close>.
\<close>

datatype control =
    FileInput
  | LevelButton string
  | QualitySlider
  | CompressButton bool
  | DownloadButton
  | ResetButton

definition renderUploadState :: "'a session_scheme \<Rightarrow> control list" where
  "renderUploadState s = [FileInput]"

definition renderCompressingState :: "'a session_scheme \<Rightarrow> control list" where
  "renderCompressingState s =
     map LevelButton [''Low'', ''Medium'', ''High'', ''Custom'']
     @ (if compressionLevel s = ''Custom'' then [QualitySlider] else [])
     @ [CompressButton (isCompressing s)]"

definition renderDoneState :: "'a session_scheme \<Rightarrow> control list" where
  "renderDoneState s = [DownloadButton, ResetButton]"

definition render :: "'a session_scheme \<Rightarrow> control list" where
  "render s =
     (if appState s = ''upload'' then renderUploadState s else [])
     @ (if appState s = ''compressing'' then renderCompressingState s else [])
     @ (if appState s = ''done'' then renderDoneState s else [])"

text \<open>
  What can happen to the component: the user acts on a control, or the pending promise
  of \<^verbatim>\<open>imageCompression\<close> settles. The slider is an \<^verbatim>\<open>input type="range"\<close> with
  \<^verbatim>\<open>min="1" max="100"\<close>, so the value it reports is an integer from 1 to 100.
\<close>

datatype event =
    FileChange "jsfile option"
  | SetCompressionLevel string
  | SetCustomQuality int
  | ClickCompress
  | ClickDownload
  | ClickReset
  | CompressionResolved jsfile
  | CompressionRejected

text \<open>
  An event runs its handler when its control is on the page and enabled (a disabled
  button dispatches no click), and a promise settles only when one is pending; any other
  event leaves everything as it is. The page is the one rendered from the current
  state: React renders again after each handler and before the next event, and the
  short exit animation during which a replaced view is still shown is not modelled.
\<close>

fun step :: "world \<Rightarrow> event \<Rightarrow> world" where
  "step w (FileChange selected) =
     (if FileInput \<in> set (render w) then handleFileChange selected w else w)"
| "step w (SetCompressionLevel level) =
     (if LevelButton level \<in> set (render w) then w\<lparr>compressionLevel := level\<rparr> else w)"
| "step w (SetCustomQuality q) =
     (if QualitySlider \<in> set (render w) \<and> 1 \<le> q \<and> q \<le> 100
      then w\<lparr>customQuality := q\<rparr> else w)"
| "step w ClickCompress =
     (if CompressButton False \<in> set (render w) then handleCompress w else w)"
| "step w ClickDownload =
     (if DownloadButton \<in> set (render w) then handleDownload w else w)"
| "step w ClickReset =
     (if ResetButton \<in> set (render w) then handleReset w else w)"
| "step w (CompressionResolved compressed) =
     (if 0 < inflight w then handleCompress_resolved compressed w else w)"
| "step w CompressionRejected =
     (if 0 < inflight w then handleCompress_rejected w else w)"

text \<open>The initial values of the \<^verbatim>\<open>useState\<close> cells, in a browser that has done nothing yet.\<close>

definition initial :: world where
  "initial =
     \<lparr>originalFile = None, compressedFile = None,
      originalImageUrl = '''', compressedImageUrl = '''',
      compressionLevel = ''Medium'', customQuality = 70,
      isCompressing = False, error = '''', appState = ''upload'',
      created = [], revoked = [], calls = [], inflight = 0, downloads = []\<rparr>"

definition run :: "event list \<Rightarrow> world" where
  "run evs = foldl step initial evs"

subsection \<open>The byte-size formatter\<close>

text \<open>
  \<^verbatim>\<open>formatBytes(bytes, decimals = 2)\<close>. Its argument is a file size or a difference of two
  file sizes, an integer. The pieces of the JavaScript library it calls:
  \<^item> \<^verbatim>\<open>Math.floor(Math.log(bytes) / Math.log(k))\<close> is \<open>unit_index\<close>, over the reals
    (for \<open>bytes \<ge> 1\<close> it is not negative);
  \<^item> \<^verbatim>\<open>x.toFixed(f)\<close> raises a RangeError unless \<open>0 \<le> f \<le> 100\<close>; otherwise it prints
    the integer \<open>n\<close> for which \<open>n / 10^f\<close> is closest to \<open>x\<close>, the larger one on a tie,
    with \<open>f\<close> digits after the point (\<open>x\<close> is not negative here, and below \<open>10^21\<close>);
  \<^item> \<^verbatim>\<open>parseFloat(s) + ' '\<close> reads that decimal back and prints it as a number: the
    zeros that end the fraction are dropped, and the point with them when nothing is
    left of the fraction (the decimals printed here are short enough to be read back
    and printed digit for digit);
  \<^item> \<^verbatim>\<open>sizes[i]\<close> past the end of the array is \<^verbatim>\<open>undefined\<close>, which \<^verbatim>\<open>+\<close> prints as
    such;
  \<^item> for a negative \<^verbatim>\<open>bytes\<close>, \<^verbatim>\<open>Math.log\<close> is \<^verbatim>\<open>NaN\<close> and so is all that follows.
\<close>

datatype js_error = RangeError

definition sizes :: "string list" where
  "sizes = [''Bytes'', ''KB'', ''MB'', ''GB'']"

definition sizes_at :: "nat \<Rightarrow> string" where
  "sizes_at i = (if i < length sizes then sizes ! i else ''undefined'')"

definition pad_zeros :: "nat \<Rightarrow> string \<Rightarrow> string" where
  "pad_zeros d s = replicate (d - length s) CHR ''0'' @ s"

definition fixed_string :: "nat \<Rightarrow> nat \<Rightarrow> string" where
  "fixed_string n d =
     (if d = 0 then string_of_nat n
      else string_of_nat (n div 10 ^ d) @ ''.'' @ pad_zeros d (string_of_nat (n mod 10 ^ d)))"

definition toFixed :: "real \<Rightarrow> int \<Rightarrow> js_error + string" where
  "toFixed x f =
     (if f < 0 \<or> 100 < f then Inl RangeError
      else Inr (fixed_string (nat \<lfloor>x * 10 ^ nat f + 1 / 2\<rfloor>) (nat f)))"

definition parseFloat_string :: "string \<Rightarrow> string" where
  "parseFloat_string s =
     (if CHR ''.'' \<in> set s
      then (let t = rev (dropWhile (\<lambda>c. c = CHR ''0'') (rev s))
            in if last t = CHR ''.'' then butlast t else t)
      else s)"

definition unit_index :: "int \<Rightarrow> nat" where
  "unit_index bytes = nat \<lfloor>ln (real_of_int bytes) / ln 1024\<rfloor>"

text \<open>The second argument is \<open>None\<close> when the call leaves it out, as every call in the source does.\<close>

definition formatBytes :: "int \<Rightarrow> int option \<Rightarrow> js_error + string" where
  "formatBytes bytes decimals_arg =
     (let decimals = (case decimals_arg of None \<Rightarrow> 2 | Some d \<Rightarrow> d) in
      if bytes = 0 then Inr ''0 Bytes''
      else
        (let dm = (if decimals < 0 then 0 else decimals) in
         if bytes < 0
         then (if 100 < dm then Inl RangeError else Inr ''NaN undefined'')
         else
           (let i = unit_index bytes
            in case toFixed (real_of_int bytes / 1024 ^ i) dm of
                 Inl e \<Rightarrow> Inl e
               | Inr s \<Rightarrow> Inr (parseFloat_string s @ '' '' @ sizes_at i))))"

subsection \<open>Properties of a whole run\<close>

text \<open>
  Every object URL that was created has been revoked exactly once: the discipline that
  \<^verbatim>\<open>handleReset\<close> follows for the two URLs it holds.
\<close>

definition released_once :: "world \<Rightarrow> bool" where
  "released_once w = list_all (\<lambda>u. count_list (revoked w) u = 1) (map fst (created w))"

text \<open>
  The states the component can be in: the compressed blob and its URL are there in the
  view \<^verbatim>\<open>'done'\<close> and nowhere else, an original file is there outside the upload view,
  and \<^verbatim>\<open>isCompressing\<close> is set exactly while one call of \<^verbatim>\<open>imageCompression\<close> is
  pending, which only happens in the view \<^verbatim>\<open>'compressing'\<close>.
\<close>

definition consistent :: "world \<Rightarrow> bool" where
  "consistent w =
     ((appState w = ''upload'' \<or> appState w = ''compressing'' \<or> appState w = ''done'')
      \<and> (if appState w = ''done''
          then compressedFile w \<noteq> None \<and> compressedImageUrl w \<noteq> ''''
          else compressedFile w = None \<and> compressedImageUrl w = '''')
      \<and> (if appState w = ''upload'' then True else originalFile w \<noteq> None)
      \<and> (if isCompressing w then appState w = ''compressing'' \<and> inflight w = 1
          else inflight w = 0))"

text \<open>
  How the URLs are kept: the URLs created are \<^verbatim>\<open>blob:0\<close>, \<^verbatim>\<open>blob:1\<close>, ... in this
  order, no URL is revoked twice, only created URLs are revoked, the URLs the session
  holds are created and not revoked, the two it holds differ, and outside the upload
  view it holds an original URL.
\<close>

definition handles_ok :: "world \<Rightarrow> bool" where
  "handles_ok w =
     (map fst (created w) = map (\<lambda>i. ''blob:'' @ string_of_nat i) [0..<length (created w)]
      \<and> distinct (revoked w)
      \<and> set (revoked w) \<subseteq> fst ` set (created w)
      \<and> (originalImageUrl w = '''' \<or>
           originalImageUrl w \<in> fst ` set (created w) \<and> originalImageUrl w \<notin> set (revoked w))
      \<and> (compressedImageUrl w = '''' \<or>
           compressedImageUrl w \<in> fst ` set (created w) \<and> compressedImageUrl w \<notin> set (revoked w))
      \<and> (compressedImageUrl w = '''' \<or> originalImageUrl w \<noteq> compressedImageUrl w)
      \<and> (appState w = ''upload'' \<or> originalImageUrl w \<noteq> ''''))"

section \<open>Auxiliary facts\<close>

lemmas view_defs = render_def renderUploadState_def renderCompressingState_def
  renderDoneState_def

lemmas app_defs = run_def initial_def view_defs handleFileChange_def handleCompress_def
  handleCompress_resolved_def handleCompress_rejected_def handleReset_def handleDownload_def
  createObjectURL_def revokeObjectURL_def accepted_types_def fresh_url_def
  string_of_nat.simps digit_char_def Let_def getCompressionOptions_def
  validation_message_def failure_message_def

lemmas fmt_defs = formatBytes_def toFixed_def fixed_string_def pad_zeros_def
  parseFloat_string_def sizes_at_def sizes_def string_of_nat.simps digit_char_def Let_def

lemma fresh_url_nonempty: "fresh_url w \<noteq> ''''"
  by (simp add: fresh_url_def)

text \<open>
  \<^verbatim>\<open>handleCompress\<close> itself does not look at \<^verbatim>\<open>isCompressing\<close>: whenever a file is
  there it calls \<^verbatim>\<open>imageCompression\<close>. What keeps a second call away is the
  \<^verbatim>\<open>disabled\<close> attribute of the button, see \<open>step\<close>.
\<close>

lemma handleCompress_calls:
  "originalFile w = Some f \<Longrightarrow> length (calls (handleCompress w)) = Suc (length (calls w))"
  by (simp add: handleCompress_def Let_def)

subsection \<open>The invariant holds along every run\<close>

lemma consistent_initial: "consistent initial"
  by (simp add: consistent_def initial_def)

lemma consistent_handleFileChange:
  "consistent w \<Longrightarrow> appState w = ''upload'' \<Longrightarrow> consistent (handleFileChange sel w)"
  by (auto simp: consistent_def handleFileChange_def createObjectURL_def Let_def
      split: option.splits if_splits)

lemma consistent_handleCompress:
  "consistent w \<Longrightarrow> appState w = ''compressing'' \<Longrightarrow> \<not> isCompressing w \<Longrightarrow>
   consistent (handleCompress w)"
  by (auto simp: consistent_def handleCompress_def Let_def split: option.splits if_splits)

lemma consistent_resolved:
  "consistent w \<Longrightarrow> 0 < inflight w \<Longrightarrow> consistent (handleCompress_resolved c w)"
  by (auto simp: consistent_def handleCompress_resolved_def createObjectURL_def Let_def
      fresh_url_nonempty split: if_splits)

lemma consistent_rejected:
  "consistent w \<Longrightarrow> 0 < inflight w \<Longrightarrow> consistent (handleCompress_rejected w)"
  by (auto simp: consistent_def handleCompress_rejected_def split: if_splits)

lemma consistent_handleReset:
  "consistent w \<Longrightarrow> appState w = ''done'' \<Longrightarrow> consistent (handleReset w)"
  by (auto simp: consistent_def handleReset_def revokeObjectURL_def Let_def split: if_splits)

lemma consistent_handleDownload:
  "consistent w \<Longrightarrow> consistent (handleDownload w)"
  by (auto simp: consistent_def handleDownload_def split: option.splits if_splits)

lemma consistent_step: "consistent w \<Longrightarrow> consistent (step w ev)"
proof (cases ev)
  case (FileChange sel)
  assume c: "consistent w"
  show ?thesis
  proof (cases "appState w = ''upload''")
    case True
    with c FileChange show ?thesis
      by (simp add: view_defs consistent_handleFileChange)
  next
    case False
    with c FileChange show ?thesis by (simp add: view_defs)
  qed
next
  case (SetCompressionLevel level)
  assume "consistent w"
  with SetCompressionLevel show ?thesis
    by (auto simp: consistent_def split: if_splits)
next
  case (SetCustomQuality q)
  assume "consistent w"
  with SetCustomQuality show ?thesis
    by (auto simp: consistent_def split: if_splits)
next
  case ClickCompress
  assume c: "consistent w"
  show ?thesis
  proof (cases "appState w = ''compressing'' \<and> \<not> isCompressing w")
    case True
    with c ClickCompress show ?thesis
      by (simp add: view_defs consistent_handleCompress)
  next
    case False
    with c ClickCompress show ?thesis by (auto simp: view_defs)
  qed
next
  case ClickDownload
  assume "consistent w"
  with ClickDownload show ?thesis by (simp add: consistent_handleDownload)
next
  case ClickReset
  assume c: "consistent w"
  show ?thesis
  proof (cases "appState w = ''done''")
    case True
    with c ClickReset show ?thesis by (simp add: view_defs consistent_handleReset)
  next
    case False
    with c ClickReset show ?thesis by (simp add: view_defs)
  qed
next
  case (CompressionResolved c)
  assume "consistent w"
  with CompressionResolved show ?thesis by (simp add: consistent_resolved)
next
  case CompressionRejected
  assume "consistent w"
  with CompressionRejected show ?thesis by (simp add: consistent_rejected)
qed

lemma consistent_foldl: "consistent w \<Longrightarrow> consistent (foldl step w evs)"
  by (induction evs arbitrary: w) (simp_all add: consistent_step)

lemma consistent_run: "consistent (run evs)"
  unfolding run_def by (rule consistent_foldl [OF consistent_initial])

subsection \<open>No object URL is revoked twice\<close>

lemma digit_char_inj: "a < 10 \<Longrightarrow> b < 10 \<Longrightarrow> digit_char a = digit_char b \<Longrightarrow> a = b"
proof -
  assume a: "a < 10" and b: "b < 10" and e: "digit_char a = digit_char b"
  have d: "distinct ''0123456789''" by simp
  have l: "length ''0123456789'' = 10" by simp
  from e have "''0123456789'' ! a = ''0123456789'' ! b" by (simp only: digit_char_def)
  with d a b l show ?thesis by (simp only: nth_eq_iff_index_eq)
qed

lemma string_of_nat_nonempty: "string_of_nat n \<noteq> []"
  by (subst string_of_nat.simps) simp

lemma string_of_nat_inj: "string_of_nat n = string_of_nat m \<Longrightarrow> n = m"
proof (induction n arbitrary: m rule: string_of_nat.induct)
  case (1 n)
  show ?case
  proof (cases "n < 10")
    case n: True
    show ?thesis
    proof (cases "m < 10")
      case True
      from "1.prems" n True have "digit_char n = digit_char m"
        by (simp add: string_of_nat.simps [of n] string_of_nat.simps [of m])
      with n True show ?thesis by (rule digit_char_inj)
    next
      case False
      from "1.prems" n False have "[digit_char n] = string_of_nat (m div 10) @ [digit_char (m mod 10)]"
        by (simp add: string_of_nat.simps [of n] string_of_nat.simps [of m])
      then have "string_of_nat (m div 10) = []" by simp
      with string_of_nat_nonempty show ?thesis by blast
    qed
  next
    case n: False
    show ?thesis
    proof (cases "m < 10")
      case True
      from "1.prems" n True have "string_of_nat (n div 10) @ [digit_char (n mod 10)] = [digit_char m]"
        by (simp add: string_of_nat.simps [of n] string_of_nat.simps [of m])
      then have "string_of_nat (n div 10) = []" by simp
      with string_of_nat_nonempty show ?thesis by blast
    next
      case False
      from "1.prems" n False
      have "string_of_nat (n div 10) @ [digit_char (n mod 10)]
            = string_of_nat (m div 10) @ [digit_char (m mod 10)]"
        by (simp add: string_of_nat.simps [of n] string_of_nat.simps [of m])
      then have q: "string_of_nat (n div 10) = string_of_nat (m div 10)"
        and r: "digit_char (n mod 10) = digit_char (m mod 10)" by simp_all
      from "1.IH" [OF n q] have dq: "n div 10 = m div 10" .
      have "n mod 10 = m mod 10" by (rule digit_char_inj [OF _ _ r]) simp_all
      with dq show ?thesis by (metis div_mult_mod_eq)
    qed
  qed
qed

lemma fresh_url_new:
  assumes "map fst (created w) = map (\<lambda>i. ''blob:'' @ string_of_nat i) [0..<length (created w)]"
  shows "fresh_url w \<notin> fst ` set (created w)"
proof
  assume "fresh_url w \<in> fst ` set (created w)"
  then have "fresh_url w \<in> set (map fst (created w))" by simp
  with assms have "fresh_url w \<in> set (map (\<lambda>i. ''blob:'' @ string_of_nat i) [0..<length (created w)])"
    by simp
  then obtain i where i: "i < length (created w)" and "fresh_url w = ''blob:'' @ string_of_nat i"
    by auto
  then have "string_of_nat (length (created w)) = string_of_nat i"
    by (simp add: fresh_url_def)
  then have "length (created w) = i" by (rule string_of_nat_inj)
  with i show False by simp
qed

lemma fresh_url_new_pair:
  assumes "map fst (created w) = map (\<lambda>i. ''blob:'' @ string_of_nat i) [0..<length (created w)]"
  shows "(fresh_url w, b) \<notin> set (created w)"
proof
  assume "(fresh_url w, b) \<in> set (created w)"
  then have "fst (fresh_url w, b) \<in> fst ` set (created w)" by (rule imageI)
  with fresh_url_new [OF assms] show False by simp
qed

lemma created_append:
  assumes "map fst (created w) = map (\<lambda>i. ''blob:'' @ string_of_nat i) [0..<length (created w)]"
  shows "map fst (created w @ [(fresh_url w, b)])
         = map (\<lambda>i. ''blob:'' @ string_of_nat i) [0..<length (created w @ [(fresh_url w, b)])]"
  using assms by (simp add: fresh_url_def)

lemma handles_ok_initial: "handles_ok initial"
  by (simp add: handles_ok_def initial_def)

lemma handles_ok_handleFileChange: "handles_ok w \<Longrightarrow> handles_ok (handleFileChange sel w)"
proof (cases sel)
  case None
  assume "handles_ok w"
  with None show ?thesis by (simp add: handles_ok_def handleFileChange_def)
next
  case (Some f)
  assume h: "handles_ok w"
  show ?thesis
  proof (cases "file_type f \<in> set accepted_types")
    case False
    with h Some show ?thesis by (simp add: handles_ok_def handleFileChange_def)
  next
    case True
    from h have m: "map fst (created w) = map (\<lambda>i. ''blob:'' @ string_of_nat i) [0..<length (created w)]"
      by (simp add: handles_ok_def)
    note n = fresh_url_new [OF m] and a = created_append [OF m]
      and p = fresh_url_new_pair [OF m]
    from h n a p True Some show ?thesis
      by (auto simp: handles_ok_def handleFileChange_def createObjectURL_def fresh_url_nonempty)
  qed
qed

lemma handles_ok_resolved:
  assumes h: "handles_ok w" and s: "appState w = ''compressing''"
  shows "handles_ok (handleCompress_resolved c w)"
proof -
  from h have m: "map fst (created w) = map (\<lambda>i. ''blob:'' @ string_of_nat i) [0..<length (created w)]"
    by (simp add: handles_ok_def)
  note n = fresh_url_new [OF m] and a = created_append [OF m]
    and p = fresh_url_new_pair [OF m]
  from h n a p s show ?thesis
    by (auto simp: handles_ok_def handleCompress_resolved_def createObjectURL_def fresh_url_nonempty)
qed

lemma handles_ok_handleReset:
  assumes h: "handles_ok w" and s: "appState w = ''done''" and c: "compressedImageUrl w \<noteq> ''''"
  shows "handles_ok (handleReset w)"
  using h s c by (auto simp: handles_ok_def handleReset_def revokeObjectURL_def Let_def)

lemma handles_ok_step:
  assumes c: "consistent w" and h: "handles_ok w"
  shows "handles_ok (step w ev)"
proof (cases ev)
  case (FileChange sel)
  with h show ?thesis by (simp add: handles_ok_handleFileChange)
next
  case (SetCompressionLevel level)
  with h show ?thesis by (simp add: handles_ok_def)
next
  case (SetCustomQuality q)
  with h show ?thesis by (simp add: handles_ok_def)
next
  case ClickCompress
  with h show ?thesis
    by (simp add: handles_ok_def handleCompress_def Let_def split: option.splits)
next
  case ClickDownload
  with h show ?thesis
    by (simp add: handles_ok_def handleDownload_def split: option.splits)
next
  case ClickReset
  show ?thesis
  proof (cases "appState w = ''done''")
    case True
    with c have "compressedImageUrl w \<noteq> ''''" by (simp add: consistent_def)
    with h True ClickReset show ?thesis by (simp add: view_defs handles_ok_handleReset)
  next
    case False
    with h ClickReset show ?thesis by (simp add: view_defs)
  qed
next
  case (CompressionResolved b)
  show ?thesis
  proof (cases "0 < inflight w")
    case True
    with c have "appState w = ''compressing''"
      by (auto simp: consistent_def split: if_splits)
    with h True CompressionResolved show ?thesis by (simp add: handles_ok_resolved)
  next
    case False
    with h CompressionResolved show ?thesis by simp
  qed
next
  case CompressionRejected
  with h show ?thesis by (simp add: handles_ok_def handleCompress_rejected_def)
qed

lemma handles_ok_foldl:
  "consistent w \<Longrightarrow> handles_ok w \<Longrightarrow> handles_ok (foldl step w evs)"
  by (induction evs arbitrary: w) (simp_all add: consistent_step handles_ok_step)

lemma handles_ok_run: "handles_ok (run evs)"
  unfolding run_def by (rule handles_ok_foldl [OF consistent_initial handles_ok_initial])

text \<open>
  Along every run the revoked URLs are pairwise different and were all created, and the
  created URLs are pairwise different: no preview URL is released twice.
\<close>

lemma no_handle_released_twice:
  "distinct (revoked (run evs)) \<and> set (revoked (run evs)) \<subseteq> fst ` set (created (run evs))
   \<and> distinct (map fst (created (run evs)))"
proof -
  have h: "handles_ok (run evs)" by (rule handles_ok_run)
  then have m: "map fst (created (run evs))
      = map (\<lambda>i. ''blob:'' @ string_of_nat i) [0..<length (created (run evs))]"
    by (simp add: handles_ok_def)
  have "inj (\<lambda>i. ''blob:'' @ string_of_nat i)"
    by (rule injI) (simp add: string_of_nat_inj)
  then have "distinct (map (\<lambda>i. ''blob:'' @ string_of_nat i) [0..<length (created (run evs))])"
    by (simp add: distinct_map inj_on_def)
  with m h show ?thesis by (simp add: handles_ok_def)
qed

subsection \<open>The unit index is the integer logarithm\<close>

lemma unit_index_floorlog:
  assumes "0 < bytes"
  shows "unit_index bytes = floorlog 1024 (nat bytes) - 1"
proof -
  have r: "real_of_int bytes = real (nat bytes)" using assms by simp
  have "ln (real_of_int bytes) / ln 1024 = log 1024 (real (nat bytes))"
    unfolding r log_def by simp
  then have "unit_index bytes = nat \<lfloor>log 1024 (real (nat bytes))\<rfloor>"
    unfolding unit_index_def by (rule arg_cong)
  moreover have "floorlog 1024 (nat bytes) = nat \<lfloor>log 1024 (real (nat bytes))\<rfloor> + 1"
    unfolding floorlog_def using assms by simp
  ultimately show ?thesis by linarith
qed

lemma unit_index_bounds:
  assumes "0 < bytes"
  shows "1024 ^ unit_index bytes \<le> bytes \<and> bytes < 1024 ^ (unit_index bytes + 1)"
proof -
  have pos: "0 < nat bytes" using assms by simp
  have fl: "0 < floorlog 1024 (nat bytes)"
    using pos by (simp add: floorlog_def)
  have b: "(1024::nat) ^ (floorlog 1024 (nat bytes) - 1) \<le> nat bytes
       \<and> nat bytes < 1024 ^ floorlog 1024 (nat bytes)"
    by (rule floorlog_bounds [OF pos]) simp
  have e: "floorlog 1024 (nat bytes) = unit_index bytes + 1"
    using fl unit_index_floorlog [OF assms] by linarith
  have lo: "(1024::nat) ^ unit_index bytes \<le> nat bytes"
    using b e by simp
  have hi: "nat bytes < (1024::nat) ^ (unit_index bytes + 1)"
    using b e by simp
  have "int ((1024::nat) ^ unit_index bytes) \<le> bytes"
    using lo assms by linarith
  moreover have "bytes < int ((1024::nat) ^ (unit_index bytes + 1))"
    using hi assms by linarith
  ultimately show ?thesis by simp
qed

lemma unit_index_eqI:
  assumes lo: "1024 ^ i \<le> bytes" and hi: "bytes < 1024 ^ (i + 1)"
  shows "unit_index bytes = i"
proof -
  have pos: "0 < bytes"
  proof -
    have "(0::int) < 1024 ^ i" by simp
    with lo show ?thesis by linarith
  qed
  let ?j = "unit_index bytes"
  from unit_index_bounds [OF pos]
  have jlo: "1024 ^ ?j \<le> bytes" and jhi: "bytes < 1024 ^ (?j + 1)" by simp_all
  have "(1024::int) ^ i < 1024 ^ (?j + 1)" using lo jhi by linarith
  then have a: "i < ?j + 1" by (simp only: power_strict_increasing_iff [of "1024::int"])
  have "(1024::int) ^ ?j < 1024 ^ (i + 1)" using jlo hi by linarith
  then have b: "?j < i + 1" by (simp only: power_strict_increasing_iff [of "1024::int"])
  from a b show ?thesis by linarith
qed

lemma unit_index_below_GB:
  assumes "0 < bytes" and "bytes < 1024 ^ 4"
  shows "unit_index bytes < 4"
proof -
  from unit_index_bounds [OF assms(1)] have "1024 ^ unit_index bytes \<le> bytes" by simp
  with assms(2) have "(1024::int) ^ unit_index bytes < 1024 ^ 4" by linarith
  then show ?thesis by (simp only: power_strict_increasing_iff [of "1024::int"])
qed

lemma formatBytes_positive:
  assumes "0 < bytes"
  shows "formatBytes bytes None =
     Inr (parseFloat_string
            (fixed_string (nat \<lfloor>real_of_int bytes / 1024 ^ unit_index bytes * 100 + 1 / 2\<rfloor>) 2)
          @ '' '' @ sizes_at (unit_index bytes))"
  using assms by (simp add: formatBytes_def toFixed_def Let_def)

text \<open>What the formatter does outside the range the application means it for.\<close>

lemma formatBytes_negative: "formatBytes (- 5) None = Inr ''NaN undefined''"
  by (simp add: fmt_defs)

lemma formatBytes_TB: "formatBytes (1024 ^ 4) None = Inr ''1 undefined''"
proof -
  have u: "unit_index 1099511627776 = 4" by (rule unit_index_eqI) simp_all
  show ?thesis by (simp add: fmt_defs u)
qed


section \<open>The claims\<close>

text \<open>
  C1. While \<^verbatim>\<open>isCompressing\<close> is true, the compress action does nothing: the click on
  the compress button leaves the whole world as it is, so no field of the session
  changes and \<^verbatim>\<open>imageCompression\<close> is not called again. The action is the click on the
  button: the guard is the button's \<^verbatim>\<open>disabled\<close> attribute.
\<close>

theorem compress_while_compressing_noop:
  "isCompressing w \<Longrightarrow> step w ClickCompress = w \<and> calls (step w ClickCompress) = calls w"
  by (simp add: view_defs)

theorem compress_while_compressing_noop_witness:
  "isCompressing (run [FileChange (Some \<lparr>file_name = ''a.png'', file_type = ''image/png'', file_size = 2048\<rparr>), ClickCompress])
   \<and> length (calls (run [FileChange (Some \<lparr>file_name = ''a.png'', file_type = ''image/png'', file_size = 2048\<rparr>), ClickCompress])) = 1
   \<and> step (run [FileChange (Some \<lparr>file_name = ''a.png'', file_type = ''image/png'', file_size = 2048\<rparr>), ClickCompress]) ClickCompress
     = run [FileChange (Some \<lparr>file_name = ''a.png'', file_type = ''image/png'', file_size = 2048\<rparr>), ClickCompress]"
proof -
  let ?w = "run [FileChange (Some \<lparr>file_name = ''a.png'', file_type = ''image/png'', file_size = 2048\<rparr>), ClickCompress]"
  have c: "isCompressing ?w" by (simp add: app_defs)
  have l: "length (calls ?w) = 1" by (simp add: app_defs)
  from c l compress_while_compressing_noop [OF c] show ?thesis by simp
qed

text \<open>
  C2. The claim is that every preview URL that is created is revoked exactly once over
  the life of a session. The run below selects a file, fails to compress it, selects a
  second file, compresses it and resets. \<^verbatim>\<open>handleFileChange\<close> overwrites the first URL
  without revoking it, and \<^verbatim>\<open>handleReset\<close> revokes only the two URLs it still holds:
  the first URL, \<^verbatim>\<open>blob:0\<close>, is never revoked.
\<close>

theorem preview_handle_leak:
  "map fst (created (run
      [FileChange (Some \<lparr>file_name = ''a.png'', file_type = ''image/png'', file_size = 2048\<rparr>),
       ClickCompress, CompressionRejected,
       FileChange (Some \<lparr>file_name = ''b.png'', file_type = ''image/png'', file_size = 4096\<rparr>),
       ClickCompress,
       CompressionResolved \<lparr>file_name = ''b.png'', file_type = ''image/png'', file_size = 1024\<rparr>,
       ClickReset])) = [''blob:0'', ''blob:1'', ''blob:2'']
   \<and> revoked (run
      [FileChange (Some \<lparr>file_name = ''a.png'', file_type = ''image/png'', file_size = 2048\<rparr>),
       ClickCompress, CompressionRejected,
       FileChange (Some \<lparr>file_name = ''b.png'', file_type = ''image/png'', file_size = 4096\<rparr>),
       ClickCompress,
       CompressionResolved \<lparr>file_name = ''b.png'', file_type = ''image/png'', file_size = 1024\<rparr>,
       ClickReset]) = [''blob:1'', ''blob:2'']
   \<and> originalImageUrl (run
      [FileChange (Some \<lparr>file_name = ''a.png'', file_type = ''image/png'', file_size = 2048\<rparr>),
       ClickCompress, CompressionRejected,
       FileChange (Some \<lparr>file_name = ''b.png'', file_type = ''image/png'', file_size = 4096\<rparr>),
       ClickCompress,
       CompressionResolved \<lparr>file_name = ''b.png'', file_type = ''image/png'', file_size = 1024\<rparr>,
       ClickReset]) = ''''
   \<and> compressedImageUrl (run
      [FileChange (Some \<lparr>file_name = ''a.png'', file_type = ''image/png'', file_size = 2048\<rparr>),
       ClickCompress, CompressionRejected,
       FileChange (Some \<lparr>file_name = ''b.png'', file_type = ''image/png'', file_size = 4096\<rparr>),
       ClickCompress,
       CompressionResolved \<lparr>file_name = ''b.png'', file_type = ''image/png'', file_size = 1024\<rparr>,
       ClickReset]) = ''''
   \<and> \<not> released_once (run
      [FileChange (Some \<lparr>file_name = ''a.png'', file_type = ''image/png'', file_size = 2048\<rparr>),
       ClickCompress, CompressionRejected,
       FileChange (Some \<lparr>file_name = ''b.png'', file_type = ''image/png'', file_size = 4096\<rparr>),
       ClickCompress,
       CompressionResolved \<lparr>file_name = ''b.png'', file_type = ''image/png'', file_size = 1024\<rparr>,
       ClickReset])"
  by (simp add: app_defs released_once_def)

text \<open>
  C3. When the pending call of \<^verbatim>\<open>imageCompression\<close> fails, in any state the component
  can reach, the view goes back to \<^verbatim>\<open>'upload'\<close>, the error is the fixed failure
  message, and there is no compressed file and no compressed preview URL.
\<close>

theorem compression_failure_recovery:
  "0 < inflight (run evs) \<Longrightarrow>
     appState (step (run evs) CompressionRejected) = ''upload''
     \<and> error (step (run evs) CompressionRejected) =
         ''Failed to compress image. It might be too small or in an unsupported format.''
     \<and> compressedFile (step (run evs) CompressionRejected) = None
     \<and> compressedImageUrl (step (run evs) CompressionRejected) = ''''"
proof -
  assume p: "0 < inflight (run evs)"
  have c: "consistent (run evs)" by (rule consistent_run)
  from p c have "isCompressing (run evs)"
    by (auto simp: consistent_def split: if_splits)
  with c have "appState (run evs) = ''compressing''"
    by (auto simp: consistent_def split: if_splits)
  with c have "compressedFile (run evs) = None \<and> compressedImageUrl (run evs) = ''''"
    by (auto simp: consistent_def split: if_splits)
  with p show ?thesis
    by (simp add: handleCompress_rejected_def failure_message_def)
qed

theorem compression_failure_recovery_witness:
  "0 < inflight (run [FileChange (Some \<lparr>file_name = ''a.png'', file_type = ''image/png'', file_size = 2048\<rparr>), ClickCompress])
   \<and> appState (step (run [FileChange (Some \<lparr>file_name = ''a.png'', file_type = ''image/png'', file_size = 2048\<rparr>), ClickCompress]) CompressionRejected) = ''upload''
   \<and> error (step (run [FileChange (Some \<lparr>file_name = ''a.png'', file_type = ''image/png'', file_size = 2048\<rparr>), ClickCompress]) CompressionRejected)
       = ''Failed to compress image. It might be too small or in an unsupported format.''
   \<and> compressedFile (step (run [FileChange (Some \<lparr>file_name = ''a.png'', file_type = ''image/png'', file_size = 2048\<rparr>), ClickCompress]) CompressionRejected) = None
   \<and> compressedImageUrl (step (run [FileChange (Some \<lparr>file_name = ''a.png'', file_type = ''image/png'', file_size = 2048\<rparr>), ClickCompress]) CompressionRejected) = ''''"
proof -
  let ?evs = "[FileChange (Some \<lparr>file_name = ''a.png'', file_type = ''image/png'', file_size = 2048\<rparr>), ClickCompress]"
  have p: "0 < inflight (run ?evs)" by (simp add: app_defs)
  from p compression_failure_recovery [OF p] show ?thesis by simp
qed

text \<open>
  C4. A file selected in the upload view: when its type is one of \<^verbatim>\<open>image/jpeg\<close>,
  \<^verbatim>\<open>image/png\<close>, \<^verbatim>\<open>image/webp\<close>, the file is stored, a new (non-empty) preview URL is
  created for it and stored, the error is cleared and the view becomes
  \<^verbatim>\<open>'compressing'\<close> (the phase Configure), and nothing else changes; for any other
  type the error becomes the fixed validation message, the view stays \<^verbatim>\<open>'upload'\<close>,
  and nothing else changes.
\<close>

theorem file_selection_in_upload:
  "appState w = ''upload'' \<Longrightarrow>
     (file_type f \<in> {''image/jpeg'', ''image/png'', ''image/webp''} \<longrightarrow>
        step w (FileChange (Some f)) =
          w\<lparr>originalFile := Some f, originalImageUrl := fresh_url w, error := '''',
            appState := ''compressing'', created := created w @ [(fresh_url w, f)]\<rparr>
        \<and> fresh_url w \<noteq> '''')
     \<and> (file_type f \<notin> {''image/jpeg'', ''image/png'', ''image/webp''} \<longrightarrow>
        step w (FileChange (Some f)) =
          w\<lparr>error := ''Please upload a valid JPG, PNG, or WebP image.''\<rparr>
        \<and> appState (step w (FileChange (Some f))) = ''upload'')"
  by (simp add: view_defs handleFileChange_def createObjectURL_def accepted_types_def
      validation_message_def fresh_url_nonempty)

theorem file_selection_in_upload_witness:
  "appState initial = ''upload''
   \<and> step initial (FileChange (Some \<lparr>file_name = ''a.png'', file_type = ''image/png'', file_size = 2048\<rparr>))
       = initial\<lparr>originalFile := Some \<lparr>file_name = ''a.png'', file_type = ''image/png'', file_size = 2048\<rparr>,
            originalImageUrl := ''blob:0'', error := '''', appState := ''compressing'',
            created := [(''blob:0'', \<lparr>file_name = ''a.png'', file_type = ''image/png'', file_size = 2048\<rparr>)]\<rparr>
   \<and> step initial (FileChange (Some \<lparr>file_name = ''a.gif'', file_type = ''image/gif'', file_size = 2048\<rparr>))
       = initial\<lparr>error := ''Please upload a valid JPG, PNG, or WebP image.''\<rparr>"
proof -
  have u: "appState initial = ''upload''" by (simp add: initial_def)
  have f: "fresh_url initial = ''blob:0''" by (simp add: app_defs)
  have c: "created initial = []" by (simp add: initial_def)
  from file_selection_in_upload [OF u, of "\<lparr>file_name = ''a.png'', file_type = ''image/png'', file_size = 2048\<rparr>"]
       file_selection_in_upload [OF u, of "\<lparr>file_name = ''a.gif'', file_type = ''image/gif'', file_size = 2048\<rparr>"]
       u f c
  show ?thesis by simp
qed

text \<open>
  C5. The parameter mapper: Low gives (1, 0.8), Medium (0.5, 0.6), High (0.1, 0.4),
  Custom (2, q / 100) for every quality q, and every level that is none of the four
  gives what Medium gives.
\<close>

theorem getCompressionOptions_table:
  "getCompressionOptions ''Low'' q = \<lparr>maxSizeMB = 1, initialQuality = 0.8\<rparr>
   \<and> getCompressionOptions ''Medium'' q = \<lparr>maxSizeMB = 0.5, initialQuality = 0.6\<rparr>
   \<and> getCompressionOptions ''High'' q = \<lparr>maxSizeMB = 0.1, initialQuality = 0.4\<rparr>
   \<and> getCompressionOptions ''Custom'' q = \<lparr>maxSizeMB = 2, initialQuality = real_of_int q / 100\<rparr>
   \<and> (level \<notin> {''Low'', ''Medium'', ''High'', ''Custom''} \<longrightarrow>
        getCompressionOptions level q = getCompressionOptions ''Medium'' q)"
  by (simp add: getCompressionOptions_def)

theorem getCompressionOptions_table_witness:
  "''Best'' \<notin> {''Low'', ''Medium'', ''High'', ''Custom''}
   \<and> getCompressionOptions ''Best'' 35 = \<lparr>maxSizeMB = 0.5, initialQuality = 0.6\<rparr>
   \<and> getCompressionOptions ''Custom'' 35 = \<lparr>maxSizeMB = 2, initialQuality = 0.35\<rparr>
   \<and> getCompressionOptions ''Custom'' 100 = \<lparr>maxSizeMB = 2, initialQuality = 1\<rparr>"
  using getCompressionOptions_table [of 35 "''Best''"]
    getCompressionOptions_table [of 100 "''Best''"]
  by simp

text \<open>
  C6. In every state that a sequence of events reaches from the initial one, the
  compressed file is there exactly when the view is \<^verbatim>\<open>'done'\<close>, and so is the
  compressed preview URL.
\<close>

theorem compressed_present_iff_done:
  "(compressedFile (run evs) \<noteq> None) = (appState (run evs) = ''done'')
   \<and> (compressedImageUrl (run evs) \<noteq> '''') = (appState (run evs) = ''done'')"
  using consistent_run [of evs] by (auto simp: consistent_def split: if_splits)

text \<open>
  C7. The byte formatter with its default of two decimals: 0 gives \<^verbatim>\<open>0 Bytes\<close>, 1024
  gives \<^verbatim>\<open>1 KB\<close>, 1536 gives \<^verbatim>\<open>1.5 KB\<close>, 1048576 gives \<^verbatim>\<open>1 MB\<close>; and for every byte
  count from 1 up to the end of the GB range the unit printed is the largest one of
  Bytes, KB, MB, GB (powers 0 to 3 of 1024) that does not exceed the count, after the
  count divided by that power, rounded to two decimals, zeros at the end dropped.
\<close>

theorem formatBytes_units:
  "formatBytes 0 None = Inr ''0 Bytes''
   \<and> formatBytes 1024 None = Inr ''1 KB''
   \<and> formatBytes 1536 None = Inr ''1.5 KB''
   \<and> formatBytes 1048576 None = Inr ''1 MB''
   \<and> (0 < bytes \<and> bytes < 1024 ^ 4 \<longrightarrow>
        (\<exists>i<4. 1024 ^ i \<le> bytes \<and> bytes < 1024 ^ (i + 1)
           \<and> formatBytes bytes None =
               Inr (parseFloat_string
                      (fixed_string (nat \<lfloor>real_of_int bytes / 1024 ^ i * 100 + 1 / 2\<rfloor>) 2)
                    @ '' '' @ sizes ! i)))"
proof -
  have z: "formatBytes 0 None = Inr ''0 Bytes''"
    by (simp add: formatBytes_def)
  have u1: "unit_index 1024 = 1" by (rule unit_index_eqI) simp_all
  have u2: "unit_index 1536 = 1" by (rule unit_index_eqI) simp_all
  have u3: "unit_index 1048576 = 2" by (rule unit_index_eqI) simp_all
  have k: "formatBytes 1024 None = Inr ''1 KB''" by (simp add: fmt_defs u1)
  have h: "formatBytes 1536 None = Inr ''1.5 KB''" by (simp add: fmt_defs u2)
  have m: "formatBytes 1048576 None = Inr ''1 MB''" by (simp add: fmt_defs u3)
  have g: "\<exists>i<4. 1024 ^ i \<le> bytes \<and> bytes < 1024 ^ (i + 1)
           \<and> formatBytes bytes None =
               Inr (parseFloat_string
                      (fixed_string (nat \<lfloor>real_of_int bytes / 1024 ^ i * 100 + 1 / 2\<rfloor>) 2)
                    @ '' '' @ sizes ! i)"
    if pos: "0 < bytes" and lt: "bytes < 1024 ^ 4"
  proof -
    let ?i = "unit_index bytes"
    have i4: "?i < 4" by (rule unit_index_below_GB [OF pos lt])
    then have s: "sizes_at ?i = sizes ! ?i" by (simp add: sizes_at_def sizes_def)
    from unit_index_bounds [OF pos] i4 formatBytes_positive [OF pos] s
    show ?thesis by auto
  qed
  from z k h m g show ?thesis by blast
qed

theorem formatBytes_units_witness:
  "(0::int) < 1947152 \<and> (1947152::int) < 1024 ^ 4
   \<and> (1024::int) ^ 2 \<le> 1947152 \<and> (1947152::int) < 1024 ^ 3
   \<and> formatBytes 1947152 None = Inr ''1.86 MB''
   \<and> formatBytes 0 None = Inr ''0 Bytes''"
proof -
  have u: "unit_index 1947152 = 2" by (rule unit_index_eqI) simp_all
  have f: "formatBytes 1947152 None = Inr ''1.86 MB''" by (simp add: fmt_defs u)
  from formatBytes_units [of 1947152] f show ?thesis by simp
qed

text \<open>
  C8. Reset in the view \<^verbatim>\<open>'done'\<close>: both preview URLs are revoked (the original one,
  then the compressed one), both files and both URLs are cleared, the level is Medium
  again and the quality 70, the error is cleared and the view is \<^verbatim>\<open>'upload'\<close>; nothing
  else changes.
\<close>

theorem reset_from_done:
  "appState w = ''done'' \<Longrightarrow>
     step w ClickReset =
       w\<lparr>originalFile := None, compressedFile := None,
         originalImageUrl := '''', compressedImageUrl := '''',
         compressionLevel := ''Medium'', customQuality := 70,
         error := '''', appState := ''upload'',
         revoked := revoked w @ [originalImageUrl w, compressedImageUrl w]\<rparr>"
  by (simp add: view_defs handleReset_def revokeObjectURL_def Let_def)

theorem reset_from_done_witness:
  "appState (run [FileChange (Some \<lparr>file_name = ''a.png'', file_type = ''image/png'', file_size = 2048\<rparr>),
        SetCompressionLevel ''High'', ClickCompress,
        CompressionResolved \<lparr>file_name = ''a.png'', file_type = ''image/png'', file_size = 512\<rparr>]) = ''done''
   \<and> step (run [FileChange (Some \<lparr>file_name = ''a.png'', file_type = ''image/png'', file_size = 2048\<rparr>),
        SetCompressionLevel ''High'', ClickCompress,
        CompressionResolved \<lparr>file_name = ''a.png'', file_type = ''image/png'', file_size = 512\<rparr>]) ClickReset
     = initial\<lparr>created := [(''blob:0'', \<lparr>file_name = ''a.png'', file_type = ''image/png'', file_size = 2048\<rparr>),
                          (''blob:1'', \<lparr>file_name = ''a.png'', file_type = ''image/png'', file_size = 512\<rparr>)],
               revoked := [''blob:0'', ''blob:1''],
               calls := [(\<lparr>file_name = ''a.png'', file_type = ''image/png'', file_size = 2048\<rparr>,
                          \<lparr>maxSizeMB = 0.1, initialQuality = 0.4, useWebWorker = True\<rparr>)]\<rparr>"
proof -
  let ?w = "run [FileChange (Some \<lparr>file_name = ''a.png'', file_type = ''image/png'', file_size = 2048\<rparr>),
        SetCompressionLevel ''High'', ClickCompress,
        CompressionResolved \<lparr>file_name = ''a.png'', file_type = ''image/png'', file_size = 512\<rparr>]"
  have d: "appState ?w = ''done''" by (simp add: app_defs)
  have e: "?w = initial\<lparr>originalFile := Some \<lparr>file_name = ''a.png'', file_type = ''image/png'', file_size = 2048\<rparr>,
       compressedFile := Some \<lparr>file_name = ''a.png'', file_type = ''image/png'', file_size = 512\<rparr>,
       originalImageUrl := ''blob:0'', compressedImageUrl := ''blob:1'',
       compressionLevel := ''High'', appState := ''done'',
       created := [(''blob:0'', \<lparr>file_name = ''a.png'', file_type = ''image/png'', file_size = 2048\<rparr>),
                   (''blob:1'', \<lparr>file_name = ''a.png'', file_type = ''image/png'', file_size = 512\<rparr>)],
       calls := [(\<lparr>file_name = ''a.png'', file_type = ''image/png'', file_size = 2048\<rparr>,
                  \<lparr>maxSizeMB = 0.1, initialQuality = 0.4, useWebWorker = True\<rparr>)]\<rparr>"
    by (simp add: app_defs)
  from d reset_from_done [OF d] show ?thesis
    unfolding e by (simp add: initial_def)
qed

text \<open>
  C9. A selection event with no file takes the rejection branch of
  \<^verbatim>\<open>handleFileChange\<close>: the error becomes the fixed validation message and nothing else
  changes (so in the upload view the view stays), which is what the handler does with
  a file of an unsupported type.
\<close>

theorem empty_selection_rejected:
  "handleFileChange None w = w\<lparr>error := ''Please upload a valid JPG, PNG, or WebP image.''\<rparr>
   \<and> (appState w = ''upload'' \<longrightarrow>
        step w (FileChange None) =
          w\<lparr>error := ''Please upload a valid JPG, PNG, or WebP image.''\<rparr>)
   \<and> (file_type f \<notin> {''image/jpeg'', ''image/png'', ''image/webp''} \<longrightarrow>
        handleFileChange (Some f) w = handleFileChange None w)"
  by (simp add: view_defs handleFileChange_def validation_message_def accepted_types_def)

theorem empty_selection_rejected_witness:
  "appState initial = ''upload''
   \<and> step initial (FileChange None)
       = initial\<lparr>error := ''Please upload a valid JPG, PNG, or WebP image.''\<rparr>
   \<and> file_type \<lparr>file_name = ''a.gif'', file_type = ''image/gif'', file_size = 2048\<rparr>
        \<notin> {''image/jpeg'', ''image/png'', ''image/webp''}
   \<and> handleFileChange (Some \<lparr>file_name = ''a.gif'', file_type = ''image/gif'', file_size = 2048\<rparr>) initial
       = handleFileChange None initial"
proof -
  have u: "appState initial = ''upload''" by (simp add: initial_def)
  from u empty_selection_rejected [of initial "\<lparr>file_name = ''a.gif'', file_type = ''image/gif'', file_size = 2048\<rparr>"]
  show ?thesis by simp
qed

text \<open>
  C10. When the pending call of \<^verbatim>\<open>imageCompression\<close> fails, the original file, its
  preview URL, the level and the quality stay as they are, and so do the compressed
  file and URL and the lists of created and revoked URLs (nothing is released); what
  changes is the error (the failure message), the view (\<^verbatim>\<open>'upload'\<close>) and
  \<^verbatim>\<open>isCompressing\<close> (false).
\<close>

theorem compression_failure_frame:
  "0 < inflight w \<Longrightarrow>
     originalFile (step w CompressionRejected) = originalFile w
     \<and> originalImageUrl (step w CompressionRejected) = originalImageUrl w
     \<and> compressionLevel (step w CompressionRejected) = compressionLevel w
     \<and> customQuality (step w CompressionRejected) = customQuality w
     \<and> compressedFile (step w CompressionRejected) = compressedFile w
     \<and> compressedImageUrl (step w CompressionRejected) = compressedImageUrl w
     \<and> created (step w CompressionRejected) = created w
     \<and> revoked (step w CompressionRejected) = revoked w
     \<and> calls (step w CompressionRejected) = calls w
     \<and> downloads (step w CompressionRejected) = downloads w
     \<and> error (step w CompressionRejected) = failure_message
     \<and> appState (step w CompressionRejected) = ''upload''
     \<and> isCompressing (step w CompressionRejected) = False"
  by (simp add: handleCompress_rejected_def)

theorem compression_failure_frame_witness:
  "0 < inflight (run [FileChange (Some \<lparr>file_name = ''a.png'', file_type = ''image/png'', file_size = 2048\<rparr>), ClickCompress])
   \<and> originalFile (step (run [FileChange (Some \<lparr>file_name = ''a.png'', file_type = ''image/png'', file_size = 2048\<rparr>), ClickCompress]) CompressionRejected)
       = Some \<lparr>file_name = ''a.png'', file_type = ''image/png'', file_size = 2048\<rparr>
   \<and> originalImageUrl (step (run [FileChange (Some \<lparr>file_name = ''a.png'', file_type = ''image/png'', file_size = 2048\<rparr>), ClickCompress]) CompressionRejected)
       = ''blob:0''
   \<and> revoked (step (run [FileChange (Some \<lparr>file_name = ''a.png'', file_type = ''image/png'', file_size = 2048\<rparr>), ClickCompress]) CompressionRejected)
       = []"
proof -
  let ?w = "run [FileChange (Some \<lparr>file_name = ''a.png'', file_type = ''image/png'', file_size = 2048\<rparr>), ClickCompress]"
  have p: "0 < inflight ?w" by (simp add: app_defs)
  have a: "originalFile ?w = Some \<lparr>file_name = ''a.png'', file_type = ''image/png'', file_size = 2048\<rparr>"
    by (simp add: app_defs)
  have b: "originalImageUrl ?w = ''blob:0''" by (simp add: app_defs)
  have c: "revoked ?w = []" by (simp add: app_defs)
  from p a b c compression_failure_frame [OF p] show ?thesis by simp
qed

end
